theory Spec2Isabelle
  imports Complex_Main "HOL-Library.Sublist"
begin

section \<open>Python strings over ASCII text\<close>

text \<open>
  A Python \<open>str\<close> is modelled as a \<open>string\<close> (a list of 8-bit characters); the
  development is about ASCII text, where \<open>str.lower\<close>, \<open>str.isspace\<close> and the
  regular-expression classes \<open>\<^verbatim>\<open>\d\<close>\<close>, \<open>\<^verbatim>\<open>\s\<close>\<close>, \<open>\<^verbatim>\<open>\w\<close>\<close> are the tables below.
\<close>

definition ascii_uppercase :: string where
  "ascii_uppercase = ''ABCDEFGHIJKLMNOPQRSTUVWXYZ''"

definition ascii_lowercase :: string where
  "ascii_lowercase = ''abcdefghijklmnopqrstuvwxyz''"

definition lower_char :: "char \<Rightarrow> char" where
  "lower_char c =
     (case map_of (zip ascii_uppercase ascii_lowercase) c of Some l \<Rightarrow> l | None \<Rightarrow> c)"

text \<open>\<open>s.lower()\<close>\<close>

definition lower :: "string \<Rightarrow> string" where
  "lower s = map lower_char s"

text \<open>\<open>k in s\<close> on strings: \<open>k\<close> occurs in \<open>s\<close> as a contiguous substring.\<close>

fun str_in :: "string \<Rightarrow> string \<Rightarrow> bool" where
  "str_in k [] = (k = [])"
| "str_in k (c # cs) = (prefix k (c # cs) \<or> str_in k cs)"

text \<open>\<open>s.startswith(k)\<close>\<close>

definition startswith :: "string \<Rightarrow> string \<Rightarrow> bool" where
  "startswith s k = prefix k s"

section \<open>Amounts\<close>

text \<open>
  A Python \<open>float\<close>. A finite value is kept as the exact rational it denotes (the
  rounding of a decimal literal to the nearest binary double is not modelled); the two
  infinities and the not-a-number value are values of their own, since \<open>float()\<close>
  produces them.
\<close>

datatype pyfloat = Finite rat | PosInf | NegInf | NaN

text \<open>\<open>x > 0\<close> and \<open>x <= 0\<close> on a float: both are false on \<open>NaN\<close>.\<close>

fun gt_zero :: "pyfloat \<Rightarrow> bool" where
  "gt_zero (Finite r) = (0 < r)"
| "gt_zero PosInf = True"
| "gt_zero NegInf = False"
| "gt_zero NaN = False"

fun le_zero :: "pyfloat \<Rightarrow> bool" where
  "le_zero (Finite r) = (r \<le> 0)"
| "le_zero PosInf = False"
| "le_zero NegInf = True"
| "le_zero NaN = False"

section \<open>Categorizer\<close>

definition CATEGORIES :: "string list" where
  "CATEGORIES =
    [''Uncategorized'', ''Processing'', ''Bank Fees'', ''Advertisement'', ''Marketing'',
     ''Repairs and Maintenance'', ''EV/Gas'', ''Supplies'', ''Software'', ''Meals 50%'',
     ''Shipping'', ''Travel'', ''Utilities'', ''Office Rent'', ''Professional Services'',
     ''Equipment'', ''Sales'', ''Insurance'', ''Other'']"

text \<open>The rule dictionary, as the list of its items in insertion (iteration) order.\<close>

definition CATEGORIZATION_RULES :: "(string \<times> string list) list" where
  "CATEGORIZATION_RULES =
    [(''Processing'', [''square'', ''stripe'', ''paypal'']),
     (''Bank Fees'', [''fee'', ''charge'', ''interest'', ''overdraft'']),
     (''Advertisement'', [''photo'', ''photohub'', ''printing'', ''ad'', ''advertisement'']),
     (''Marketing'', [''facebook'', ''instagram'', ''google ads'', ''advertising'', ''marketing'']),
     (''Repairs and Maintenance'',
        [''home depot'', ''lowe'', ''advance auto'', ''autozone'', ''autopart'', ''repair'',
         ''maintenance'']),
     (''EV/Gas'', [''supercharging'', ''super charging'', ''gas station'', ''fuel'']),
     (''Supplies'',
        [''office depot'', ''staples'', ''ikea'', ''amazon'', ''supplies'', ''paper'', ''ink'']),
     (''Software'',
        [''google svcs'', ''google'', ''microsoft'', ''adobe'', ''slack'', ''zoom'', ''dropbox'',
         ''aws'', ''github'', ''canva'', ''expens'']),
     (''Meals 50%'',
        [''mcdonald'', ''starbucks'', ''chick-fil-a'', ''chipotle'', ''wendy'', ''burger king'',
         ''dunkin'', ''panera'', ''subway'', ''domino'']),
     (''Shipping'', [''ups store'', ''fedex'', ''usps'', ''shipping'']),
     (''Travel'', [''uber'', ''lyft'', ''hotel'', ''airline'', ''parking'']),
     (''Utilities'',
        [''bge'', ''balt gas'', ''gas and electric'', ''utility'', ''utilities'', ''electric'',
         ''water'', ''verizon'', ''comcast'']),
     (''Professional Services'', [''legal'', ''accounting'', ''consulting'', ''lawyer'', ''cpa''])]"

text \<open>The inner loop \<open>for keyword in keywords\<close>: does some keyword occur in the description?\<close>

fun any_keyword :: "string list \<Rightarrow> string \<Rightarrow> bool" where
  "any_keyword [] d = False"
| "any_keyword (keyword # keywords) d = (str_in keyword d \<or> any_keyword keywords d)"

text \<open>The outer loop \<open>for category, keywords in CATEGORIZATION_RULES.items()\<close>, which
  returns the first category one of whose keywords occurs.\<close>

fun first_rule :: "(string \<times> string list) list \<Rightarrow> string \<Rightarrow> string option" where
  "first_rule [] d = None"
| "first_rule ((category, keywords) # rules) d =
     (if any_keyword keywords d then Some category else first_rule rules d)"

definition categorize_transaction :: "string \<Rightarrow> pyfloat option \<Rightarrow> string" where
  "categorize_transaction description amount =
    (let description_lower = lower description in
     if str_in ''tesla'' description_lower then
       (if str_in ''super'' description_lower \<or> str_in ''charge'' description_lower
        then ''EV/Gas'' else ''Repairs and Maintenance'')
     else if str_in ''home depot'' description_lower then ''Repairs and Maintenance''
     else if str_in ''hdphotohub'' description_lower then ''Software''
     else if str_in ''affirm'' description_lower then ''Equipment''
     else if str_in ''amex'' description_lower then ''Bank Fees''
     else if str_in ''square inc'' description_lower
             \<or> startswith description_lower ''square ''
             \<or> startswith description_lower ''sq *'' then
       (case amount of
          None \<Rightarrow> ''Uncategorized''
        | Some a \<Rightarrow> if gt_zero a then ''Sales'' else ''Uncategorized'')
     else if str_in ''apple'' description_lower then ''Software''
     else if str_in ''bk od amer'' description_lower then ''Bank Fees''
     else if str_in ''cubicasa'' description_lower then ''Software''
     else (case first_rule CATEGORIZATION_RULES description_lower of
             Some category \<Rightarrow> category
           | None \<Rightarrow> ''Uncategorized''))"

text \<open>The special cases that are tested before the payment-processor prefix rule.\<close>

definition before_square :: "string \<Rightarrow> bool" where
  "before_square dl =
     (str_in ''tesla'' dl \<or> str_in ''home depot'' dl \<or> str_in ''hdphotohub'' dl
      \<or> str_in ''affirm'' dl \<or> str_in ''amex'' dl)"

text \<open>All the special cases of step 1 (they are tested before the keyword table).\<close>

definition special_case :: "string \<Rightarrow> bool" where
  "special_case dl =
     (before_square dl \<or> str_in ''square inc'' dl \<or> startswith dl ''square ''
      \<or> startswith dl ''sq *'' \<or> str_in ''apple'' dl \<or> str_in ''bk od amer'' dl
      \<or> str_in ''cubicasa'' dl)"

section \<open>More string operations\<close>

definition digits :: string where
  "digits = ''0123456789''"

definition isdigit :: "char \<Rightarrow> bool" where
  "isdigit c = (c \<in> set digits)"

definition isalpha :: "char \<Rightarrow> bool" where
  "isalpha c = (c \<in> set ascii_uppercase \<or> c \<in> set ascii_lowercase)"

text \<open>
  \<open>str.isspace\<close>, and the class \<open>\<^verbatim>\<open>\s\<close>\<close> of \<open>re\<close>, on ASCII: tab, line feed, vertical
  tab, form feed, carriage return, the four separators 0x1C to 0x1F, and the space.
\<close>

definition whitespace :: string where
  "whitespace =
     [CHR 0x09, CHR 0x0A, CHR 0x0B, CHR 0x0C, CHR 0x0D, CHR 0x1C, CHR 0x1D, CHR 0x1E, CHR 0x1F,
      CHR '' '']"

definition isspace :: "char \<Rightarrow> bool" where
  "isspace c = (c \<in> set whitespace)"

text \<open>The class \<open>\<^verbatim>\<open>\w\<close>\<close> of \<open>re\<close> on ASCII: letters, digits and the underscore.\<close>

definition isword :: "char \<Rightarrow> bool" where
  "isword c = (isalpha c \<or> isdigit c \<or> c = CHR ''_'')"


text \<open>\<open>s.strip()\<close>\<close>

definition strip :: "string \<Rightarrow> string" where
  "strip s = rev (dropWhile isspace (rev (dropWhile isspace s)))"

text \<open>\<open>s.endswith(k)\<close>\<close>

definition endswith :: "string \<Rightarrow> string \<Rightarrow> bool" where
  "endswith s k = suffix k s"

text \<open>\<open>s.split(sep)\<close> for a separator of one character: empty fields are kept.\<close>

fun split_on :: "char \<Rightarrow> string \<Rightarrow> string list" where
  "split_on sep [] = [[]]"
| "split_on sep (c # cs) =
     (if c = sep then [] # split_on sep cs
      else (case split_on sep cs of
              w # ws \<Rightarrow> (c # w) # ws
            | [] \<Rightarrow> [[c]]))"

text \<open>\<open>s.split()\<close>: the maximal runs of characters that are not whitespace. The first
  argument is the word read so far.\<close>

fun split_words :: "string \<Rightarrow> string \<Rightarrow> string list" where
  "split_words w [] = (if w = [] then [] else [w])"
| "split_words w (c # cs) =
     (if isspace c then (if w = [] then split_words [] cs else w # split_words [] cs)
      else split_words (w @ [c]) cs)"

definition split :: "string \<Rightarrow> string list" where
  "split s = split_words [] s"

text \<open>\<open>sep.join(xs)\<close>\<close>

fun join :: "string \<Rightarrow> string list \<Rightarrow> string" where
  "join sep [] = []"
| "join sep [x] = x"
| "join sep (x # y # ys) = x @ sep @ join sep (y # ys)"



definition digit_val :: "char \<Rightarrow> nat" where
  "digit_val c = (case map_of (zip digits [0, 1, 2, 3, 4, 5, 6, 7, 8, 9]) c of Some n \<Rightarrow> n | None \<Rightarrow> 0)"

text \<open>\<open>int(ds)\<close> on a string of decimal digits.\<close>

definition int_of_digits :: "string \<Rightarrow> nat" where
  "int_of_digits ds = foldl (\<lambda>n c. 10 * n + digit_val c) 0 ds"

definition digit_char :: "nat \<Rightarrow> char" where
  "digit_char n = digits ! (n mod 10)"

section \<open>Regular expressions\<close>

text \<open>
  The fragment of Python's \<open>re\<close> that the program's patterns use. \<open>Lit\<close> is a literal
  matched without regard to case (the vendor patterns are compiled with
  \<open>re.IGNORECASE\<close>), \<open>Bnd\<close> is \<open>\<^verbatim>\<open>\b\<close>\<close>, \<open>Star P\<close> is \<open>c*\<close> for a character class \<open>c\<close>.
\<close>

datatype rx =
    Eps
  | Cls "char \<Rightarrow> bool"
  | Lit string
  | Bnd
  | Star "char \<Rightarrow> bool"
  | Opt rx
  | Seq rx rx
  | Alt rx rx

text \<open>
  A position in the subject string: the character before it, if any, and the rest of
  the string from it on.
\<close>

type_synonym pos = "char option \<times> string"

definition word_before :: "pos \<Rightarrow> bool" where
  "word_before p = (case fst p of Some c \<Rightarrow> isword c | None \<Rightarrow> False)"

definition word_after :: "pos \<Rightarrow> bool" where
  "word_after p = (case snd p of c # cs \<Rightarrow> isword c | [] \<Rightarrow> False)"

fun lit_step :: "string \<Rightarrow> pos \<Rightarrow> pos list" where
  "lit_step [] p = [p]"
| "lit_step (k # ks) (b, []) = []"
| "lit_step (k # ks) (b, c # cs) =
     (if lower_char c = lower_char k then lit_step ks (Some c, cs) else [])"

fun star_step :: "(char \<Rightarrow> bool) \<Rightarrow> pos \<Rightarrow> pos list" where
  "star_step P (b, []) = [(b, [])]"
| "star_step P (b, c # cs) =
     (if P c then star_step P (Some c, cs) @ [(b, c # cs)] else [(b, c # cs)])"

text \<open>All the positions at which a match of the pattern that starts at \<open>p\<close> can end.\<close>

fun rx_step :: "rx \<Rightarrow> pos \<Rightarrow> pos list" where
  "rx_step Eps p = [p]"
| "rx_step (Cls P) (b, []) = []"
| "rx_step (Cls P) (b, c # cs) = (if P c then [(Some c, cs)] else [])"
| "rx_step (Lit ks) p = lit_step ks p"
| "rx_step Bnd p = (if word_before p \<noteq> word_after p then [p] else [])"
| "rx_step (Star P) p = star_step P p"
| "rx_step (Opt r) p = rx_step r p @ [p]"
| "rx_step (Seq r1 r2) p = concat (map (rx_step r2) (rx_step r1 p))"
| "rx_step (Alt r1 r2) p = rx_step r1 p @ rx_step r2 p"

text \<open>\<open>re.match(r, s)\<close> as a truth value: a match that starts at the beginning.\<close>

definition re_match :: "rx \<Rightarrow> string \<Rightarrow> bool" where
  "re_match r s = (rx_step r (None, s) \<noteq> [])"

text \<open>\<open>re.search(r, s)\<close> as a truth value: a match that starts anywhere.\<close>

fun search_from :: "rx \<Rightarrow> pos \<Rightarrow> bool" where
  "search_from r (b, []) = (rx_step r (b, []) \<noteq> [])"
| "search_from r (b, c # cs) = (rx_step r (b, c # cs) \<noteq> [] \<or> search_from r (Some c, cs))"

definition re_search :: "rx \<Rightarrow> string \<Rightarrow> bool" where
  "re_search r s = search_from r (None, s)"

definition cat :: "rx list \<Rightarrow> rx" where
  "cat rs = foldr Seq rs Eps"

text \<open>\<open>\<^verbatim>\<open>\d{1,2}[/-]\d{1,2}[/-]\d{2,4}\<close>\<close>\<close>

definition date_sep :: "char \<Rightarrow> bool" where
  "date_sep c = (c = CHR ''/'' \<or> c = CHR ''-'')"

definition date_pattern :: rx where
  "date_pattern =
     cat [Cls isdigit, Opt (Cls isdigit), Cls date_sep,
          Cls isdigit, Opt (Cls isdigit), Cls date_sep,
          Cls isdigit, Cls isdigit, Opt (Seq (Cls isdigit) (Opt (Cls isdigit)))]"

text \<open>\<open>\<^verbatim>\<open>[\d,]+\.?\d*\<close>\<close>\<close>

definition digit_or_comma :: "char \<Rightarrow> bool" where
  "digit_or_comma c = (isdigit c \<or> c = CHR '','')"

definition is_dot :: "char \<Rightarrow> bool" where
  "is_dot c = (c = CHR ''.'')"

definition amount_pattern :: rx where
  "amount_pattern =
     cat [Cls digit_or_comma, Star digit_or_comma, Opt (Cls is_dot), Star isdigit]"

section \<open>Amount and date parser\<close>

text \<open>
  \<open>float(s)\<close> on a string. Underscores are allowed between two digits only; leading and
  trailing C whitespace (tab, line feed, vertical tab, form feed, carriage return, space)
  is dropped; then comes an optional sign and either one of the words \<open>inf\<close>,
  \<open>infinity\<close>, \<open>nan\<close> (in any case) or a decimal numeral: digits with an optional point,
  at least one digit in all, and an optional exponent. \<open>None\<close> is \<open>ValueError\<close>.
\<close>

definition float_space :: "char \<Rightarrow> bool" where
  "float_space c =
     (c \<in> set [CHR 0x09, CHR 0x0A, CHR 0x0B, CHR 0x0C, CHR 0x0D, CHR '' ''])"

definition float_strip :: "string \<Rightarrow> string" where
  "float_strip s = rev (dropWhile float_space (rev (dropWhile float_space s)))"

fun underscores_ok :: "char option \<Rightarrow> string \<Rightarrow> bool" where
  "underscores_ok prev [] = (prev \<noteq> Some (CHR ''_''))"
| "underscores_ok prev (c # cs) =
     ((if c = CHR ''_'' then (case prev of Some p \<Rightarrow> isdigit p | None \<Rightarrow> False)
       else (prev \<noteq> Some (CHR ''_'') \<or> isdigit c))
      \<and> underscores_ok (Some c) cs)"

text \<open>An optional sign: whether it is a minus, and the rest.\<close>

definition take_sign :: "string \<Rightarrow> bool \<times> string" where
  "take_sign s =
     (case s of
        [] \<Rightarrow> (False, [])
      | c # r \<Rightarrow> if c = CHR ''-'' then (True, r) else if c = CHR ''+'' then (False, r)
                 else (False, s))"

text \<open>What follows the mantissa: nothing, or \<open>e\<close> or \<open>E\<close>, an optional sign and digits.\<close>

definition parse_exponent :: "string \<Rightarrow> int option" where
  "parse_exponent s =
     (case s of
        [] \<Rightarrow> Some 0
      | c # r \<Rightarrow>
          if c = CHR ''e'' \<or> c = CHR ''E'' then
            (let (neg, ds) = take_sign r in
             if ds \<noteq> [] \<and> list_all isdigit ds
             then Some (if neg then - int (int_of_digits ds) else int (int_of_digits ds))
             else None)
          else None)"

definition scale10 :: "rat \<Rightarrow> int \<Rightarrow> rat" where
  "scale10 m e = (if 0 \<le> e then m * 10 ^ nat e else m / 10 ^ nat (- e))"

definition parse_decimal :: "string \<Rightarrow> rat option" where
  "parse_decimal s =
     (let ip = takeWhile isdigit s;
          r1 = dropWhile isdigit s;
          (fp, r2) = (case r1 of
                        [] \<Rightarrow> ([], [])
                      | c # r \<Rightarrow> if c = CHR ''.'' then (takeWhile isdigit r, dropWhile isdigit r)
                                 else ([], r1))
      in if ip = [] \<and> fp = [] then None
         else (case parse_exponent r2 of
                 None \<Rightarrow> None
               | Some e \<Rightarrow> Some (scale10 (of_nat (int_of_digits (ip @ fp))) (e - int (length fp)))))"

definition py_float :: "string \<Rightarrow> pyfloat option" where
  "py_float s0 =
     (if \<not> underscores_ok None s0 then None
      else
        (let (neg, body) = take_sign (float_strip (filter (\<lambda>c. c \<noteq> CHR ''_'') s0)) in
         if lower body = ''inf'' \<or> lower body = ''infinity''
           then Some (if neg then NegInf else PosInf)
         else if lower body = ''nan'' then Some NaN
         else (case parse_decimal body of
                 None \<Rightarrow> None
               | Some r \<Rightarrow> Some (Finite (if neg then - r else r)))))"

text \<open>
  The amount of a candidate (the same statements in the table pass and in the text-line
  pass): \<open>re.sub(r'[,$]', '', amount_str)\<close>, then a value in parentheses becomes the
  value with a minus sign in front, then \<open>float\<close>.
\<close>

definition amount_clean :: "string \<Rightarrow> string" where
  "amount_clean amount_str =
     (let amount_clean = filter (\<lambda>c. c \<noteq> CHR '','' \<and> c \<noteq> CHR ''$'') amount_str
      in if startswith amount_clean ''('' \<and> endswith amount_clean '')''
         then CHR ''-'' # butlast (tl amount_clean) else amount_clean)"

definition parse_amount :: "string \<Rightarrow> pyfloat option" where
  "parse_amount amount_str = py_float (amount_clean amount_str)"





text \<open>A calendar date: year, month, day.\<close>

datatype pydate = Date nat nat nat

definition is_leap :: "nat \<Rightarrow> bool" where
  "is_leap y = (y mod 4 = 0 \<and> (y mod 100 \<noteq> 0 \<or> y mod 400 = 0))"

definition days_in_month :: "nat \<Rightarrow> nat \<Rightarrow> nat" where
  "days_in_month y m =
     (if m = 2 then (if is_leap y then 29 else 28)
      else if m = 4 \<or> m = 6 \<or> m = 9 \<or> m = 11 then 30 else 31)"

text \<open>The constructor of \<open>datetime\<close>: \<open>None\<close> is \<open>ValueError\<close>.\<close>

definition make_date :: "nat \<Rightarrow> nat \<Rightarrow> nat \<Rightarrow> pydate option" where
  "make_date y m d =
     (if 1 \<le> y \<and> y \<le> 9999 \<and> 1 \<le> m \<and> m \<le> 12 \<and> 1 \<le> d \<and> d \<le> days_in_month y m
      then Some (Date y m d) else None)"

text \<open>
  The two formats of \<open>datetime.strptime\<close> that the program uses, \<open>%m/%d/%y\<close> and
  \<open>%m/%d/%Y\<close>. \<open>strptime\<close> matches the whole string against the pattern of the format:
  for \<open>%m\<close> one of \<open>1[0-2]\<close>, \<open>0[1-9]\<close>, \<open>[1-9]\<close>; for \<open>%d\<close> one of \<open>3[0-1]\<close>,
  \<open>[1-2]\d\<close>, \<open>0[1-9]\<close>, \<open>[1-9]\<close>, a space and \<open>[1-9]\<close>; for \<open>%y\<close> two digits and
  for \<open>%Y\<close> four. No group can contain a slash, so the groups are the three fields
  between the slashes.
\<close>

datatype date_format = Year2 | Year4

definition nonzero_digit :: "char \<Rightarrow> bool" where
  "nonzero_digit c = (c \<in> set ''123456789'')"

fun month_group :: "string \<Rightarrow> bool" where
  "month_group [a] = nonzero_digit a"
| "month_group [a, b] =
     ((a = CHR ''1'' \<and> b \<in> set ''012'') \<or> (a = CHR ''0'' \<and> nonzero_digit b))"
| "month_group _ = False"

fun day_group :: "string \<Rightarrow> bool" where
  "day_group [a] = nonzero_digit a"
| "day_group [a, b] =
     ((a = CHR ''3'' \<and> b \<in> set ''01'') \<or> (a \<in> set ''12'' \<and> isdigit b)
      \<or> (a = CHR ''0'' \<and> nonzero_digit b) \<or> (a = CHR '' '' \<and> nonzero_digit b))"
| "day_group _ = False"

definition year_group :: "date_format \<Rightarrow> string \<Rightarrow> bool" where
  "year_group f y =
     (list_all isdigit y \<and> length y = (case f of Year2 \<Rightarrow> 2 | Year4 \<Rightarrow> 4))"

text \<open>A year of two digits up to 68 is in the 2000s, from 69 on in the 1900s.\<close>

definition year_value :: "date_format \<Rightarrow> string \<Rightarrow> nat" where
  "year_value f y =
     (case f of
        Year2 \<Rightarrow> (if int_of_digits y \<le> 68 then 2000 + int_of_digits y
                   else 1900 + int_of_digits y)
      | Year4 \<Rightarrow> int_of_digits y)"

definition strptime :: "string \<Rightarrow> date_format \<Rightarrow> pydate option" where
  "strptime date_str f =
     (case split_on (CHR ''/'') date_str of
        [m, d, y] \<Rightarrow>
          if month_group m \<and> day_group d \<and> year_group f y
          then make_date (year_value f y) (int_of_digits m) (int_of_digits (filter isdigit d))
          else None
      | _ \<Rightarrow> None)"

text \<open>
  The date of a candidate (the same statements in both passes): first \<open>%m/%d/%y\<close>, on
  \<open>ValueError\<close> then \<open>%m/%d/%Y\<close>; \<open>None\<close> when the second fails as well (the row or line
  is skipped).
\<close>

definition parse_date :: "string \<Rightarrow> pydate option" where
  "parse_date date_str =
     (case strptime date_str Year2 of
        Some date_obj \<Rightarrow> Some date_obj
      | None \<Rightarrow> strptime date_str Year4)"

text \<open>\<open>date_obj.isoformat()\<close>: \<open>YYYY-MM-DD\<close>.\<close>

fun isoformat :: "pydate \<Rightarrow> string" where
  "isoformat (Date y m d) =
     [digit_char (y div 1000), digit_char (y div 100), digit_char (y div 10), digit_char y,
      CHR ''-'', digit_char (m div 10), digit_char m,
      CHR ''-'', digit_char (d div 10), digit_char d]"

section \<open>Vendor normalizer\<close>






section \<open>Statement extractor\<close>

text \<open>
  A transaction, as the dictionary the program builds. The extractor sets no \<open>id\<close>; the
  ingestion caller and the manual add do.
\<close>

record transaction =
  t_id :: "string option"
  t_date :: string
  t_description :: string
  t_amount :: pyfloat
  t_category :: string

text \<open>
  What the PDF library gives for a page: the tables as grids of cells (a cell is a string
  or \<open>None\<close>) and the text (a string or \<open>None\<close>). A document that cannot be opened, and a
  page on which the library raises, are \<open>Inl\<close>.
\<close>

type_synonym row = "string option list"

type_synonym table = "row list"

record page =
  extract_tables :: "table list"
  extract_text :: "string option"

datatype pdf_error = PdfError

type_synonym pdf = "pdf_error + (pdf_error + page) list"

text \<open>
  The statements both passes run on a candidate: the amount, the date, the category, the
  record. \<open>None\<close> when \<open>float\<close> or both \<open>strptime\<close> raise \<open>ValueError\<close> (the candidate is
  skipped).
\<close>

definition make_transaction :: "string \<Rightarrow> string \<Rightarrow> string \<Rightarrow> transaction option" where
  "make_transaction date_str description amount_str =
     (case parse_amount amount_str of
        None \<Rightarrow> None
      | Some amount \<Rightarrow>
          (case parse_date date_str of
             None \<Rightarrow> None
           | Some date_obj \<Rightarrow>
               Some \<lparr>t_id = None, t_date = isoformat date_obj, t_description = description,
                     t_amount = amount,
                     t_category = categorize_transaction description (Some amount)\<rparr>))"

text \<open>\<open>[cell.strip() if cell else "" for cell in row]\<close>\<close>

definition clean_row :: "row \<Rightarrow> string list" where
  "clean_row row = map (\<lambda>cell. case cell of None \<Rightarrow> [] | Some c \<Rightarrow> strip c) row"

text \<open>\<open>date_str\<close>, \<open>description\<close> and \<open>amount_str\<close> of a cleaned row.\<close>

definition row_fields :: "string list \<Rightarrow> string \<times> string \<times> string" where
  "row_fields cleaned_row =
     (cleaned_row ! 0,
      (if 2 < length cleaned_row then join '' '' (butlast (tl cleaned_row)) else cleaned_row ! 1),
      (if 1 < length cleaned_row then last cleaned_row else []))"

text \<open>The tests a table row passes before its amount and date are parsed.\<close>

definition row_candidate :: "row \<Rightarrow> bool" where
  "row_candidate row =
     (row \<noteq> [] \<and> 3 \<le> length row \<and>
      (let cleaned_row = clean_row row in
       \<not> (cleaned_row ! 0 = [] \<or> \<not> list_ex (\<lambda>c. c \<noteq> []) cleaned_row) \<and>
       (case row_fields cleaned_row of
          (date_str, description, amount_str) \<Rightarrow>
            re_match date_pattern date_str \<and> re_search amount_pattern amount_str)))"

text \<open>The body of the loop over the rows of a table; the state is \<open>transactions_data\<close>.\<close>

definition table_row :: "transaction list \<Rightarrow> row \<Rightarrow> transaction list" where
  "table_row transactions_data row =
     (if row_candidate row then
        (case row_fields (clean_row row) of
           (date_str, description, amount_str) \<Rightarrow>
             (case make_transaction date_str description amount_str of
                Some transaction \<Rightarrow> transactions_data @ [transaction]
              | None \<Rightarrow> transactions_data))
      else transactions_data)"

definition table_pass :: "transaction list \<Rightarrow> table list \<Rightarrow> transaction list" where
  "table_pass transactions_data tables = foldl (foldl table_row) transactions_data tables"

text \<open>The body of the loop over the lines of the page text.\<close>

definition text_line :: "transaction list \<Rightarrow> string \<Rightarrow> transaction list" where
  "text_line transactions_data line0 =
     (let line = strip line0 in
      if line = [] then transactions_data
      else if re_search date_pattern line \<and> re_search amount_pattern line then
        (let parts = split line in
         if 3 \<le> length parts then
           (case make_transaction (parts ! 0) (join '' '' (butlast (tl parts))) (last parts) of
              Some transaction \<Rightarrow> transactions_data @ [transaction]
            | None \<Rightarrow> transactions_data)
         else transactions_data)
      else transactions_data)"

definition text_pass :: "transaction list \<Rightarrow> string option \<Rightarrow> transaction list" where
  "text_pass transactions_data text =
     (case text of
        None \<Rightarrow> transactions_data
      | Some t \<Rightarrow> if t = [] then transactions_data
                  else foldl text_line transactions_data (split_on (CHR 0x0A) t))"

definition process_page :: "transaction list \<Rightarrow> page \<Rightarrow> transaction list" where
  "process_page transactions_data p =
     text_pass (table_pass transactions_data (extract_tables p)) (extract_text p)"

text \<open>The loop over the pages; an exception of the library leaves the loop.\<close>

fun process_pages :: "transaction list \<Rightarrow> (pdf_error + page) list \<Rightarrow> pdf_error + transaction list"
where
  "process_pages transactions_data [] = Inr transactions_data"
| "process_pages transactions_data (Inl e # pages) = Inl e"
| "process_pages transactions_data (Inr p # pages) =
     process_pages (process_page transactions_data p) pages"

text \<open>
  The result is \<open>Inr\<close> of the list the call returns, or \<open>Inl\<close> of an exception that
  reaches the caller. The handler \<open>except Exception\<close> around the whole body returns the
  empty list.
\<close>

definition extract_transactions_from_pdf :: "pdf \<Rightarrow> pdf_error + transaction list" where
  "extract_transactions_from_pdf pdf =
     (case pdf of
        Inl e \<Rightarrow> Inr []
      | Inr pages \<Rightarrow>
          (case process_pages [] pages of
             Inl e \<Rightarrow> Inr []
           | Inr transactions_data \<Rightarrow> Inr transactions_data))"

text \<open>The transactions the two passes find on one page, each pass on its own.\<close>

definition table_transactions :: "page \<Rightarrow> transaction list" where
  "table_transactions p = table_pass [] (extract_tables p)"

definition text_transactions :: "page \<Rightarrow> transaction list" where
  "text_transactions p = text_pass [] (extract_text p)"

section \<open>Transaction store\<close>

text \<open>\<open>financial_data\<close>: year, then month, then the bucket.\<close>

record bucket =
  transactions :: "transaction list"
  pdf_info :: "(string \<times> string \<times> nat) option"
  processed :: bool

type_synonym store = "string \<rightharpoonup> (string \<rightharpoonup> bucket)"

text \<open>
  The JSON object of a request, as far as the two operations read it: each key is present
  or not. The amount is taken to be a JSON number, on which \<open>float\<close> does not fail.
\<close>

record json_data =
  j_date :: "string option"
  j_description :: "string option"
  j_amount :: "pyfloat option"
  j_category :: "string option"

datatype response = Success string transaction | Failure nat string

text \<open>The four conditional assignments of \<open>update_transaction\<close>.\<close>

definition update_fields :: "json_data \<Rightarrow> transaction \<Rightarrow> transaction" where
  "update_fields data t =
     (let t = (case j_category data of Some c \<Rightarrow> t\<lparr>t_category := c\<rparr> | None \<Rightarrow> t);
          t = (case j_description data of Some d \<Rightarrow> t\<lparr>t_description := d\<rparr> | None \<Rightarrow> t);
          t = (case j_amount data of Some a \<Rightarrow> t\<lparr>t_amount := a\<rparr> | None \<Rightarrow> t);
          t = (case j_date data of Some d \<Rightarrow> t\<lparr>t_date := d\<rparr> | None \<Rightarrow> t)
      in t)"

text \<open>The loop over the transactions of the bucket: the first one with the id is updated.\<close>

fun update_loop :: "string \<Rightarrow> json_data \<Rightarrow> transaction list \<Rightarrow> (transaction list \<times> transaction) option"
where
  "update_loop transaction_id data [] = None"
| "update_loop transaction_id data (t # ts) =
     (if t_id t = Some transaction_id then Some (update_fields data t # ts, update_fields data t)
      else (case update_loop transaction_id data ts of
              None \<Rightarrow> None
            | Some (ts', u) \<Rightarrow> Some (t # ts', u)))"

definition update_transaction :: "string \<Rightarrow> string \<Rightarrow> string \<Rightarrow> json_data \<Rightarrow> store \<Rightarrow> store \<times> response"
where
  "update_transaction year month transaction_id data financial_data =
     (case financial_data year of
        None \<Rightarrow> (financial_data, Failure 404 ''Transaction not found'')
      | Some months \<Rightarrow>
          (case months month of
             None \<Rightarrow> (financial_data, Failure 404 ''Transaction not found'')
           | Some b \<Rightarrow>
               (case update_loop transaction_id data (transactions b) of
                  None \<Rightarrow> (financial_data, Failure 404 ''Transaction not found'')
                | Some (ts', u) \<Rightarrow>
                    (financial_data(year \<mapsto> months(month \<mapsto> b\<lparr>transactions := ts'\<rparr>)),
                     Success ''Transaction updated successfully'' u))))"

text \<open>\<open>str(n)\<close> for a natural number.\<close>

fun str_nat :: "nat \<Rightarrow> string" where
  "str_nat n = (if n < 10 then [digit_char n] else str_nat (n div 10) @ [digit_char n])"

definition add_transaction :: "string \<Rightarrow> string \<Rightarrow> json_data \<Rightarrow> store \<Rightarrow> store \<times> response" where
  "add_transaction year month data financial_data =
     (case (j_date data, j_description data, j_amount data) of
        (Some date, Some description, Some amount) \<Rightarrow>
          (let months = (case financial_data year of None \<Rightarrow> Map.empty | Some ms \<Rightarrow> ms);
               b = (case months month of
                      None \<Rightarrow> \<lparr>transactions = [], pdf_info = None, processed = False\<rparr>
                    | Some b \<Rightarrow> b);
               transaction_count = length (transactions b);
               transaction_id = year @ ''_'' @ month @ ''_manual_'' @ str_nat transaction_count;
               new_transaction =
                 \<lparr>t_id = Some transaction_id, t_date = date, t_description = description,
                  t_amount = amount,
                  t_category = (case j_category data of Some c \<Rightarrow> c | None \<Rightarrow> ''Uncategorized'')\<rparr>
           in (financial_data
                 (year \<mapsto> months(month \<mapsto> b\<lparr>transactions := transactions b @ [new_transaction]\<rparr>)),
               Success ''Transaction added successfully'' new_transaction))
      | _ \<Rightarrow> (financial_data, Failure 400 ''Missing required fields: date, description, amount''))"

text \<open>Every stored transaction has a category of the enumerated set.\<close>

definition categories_ok :: "store \<Rightarrow> bool" where
  "categories_ok financial_data =
     (\<forall>year months month b.
        financial_data year = Some months \<longrightarrow> months month = Some b \<longrightarrow>
        (\<forall>t \<in> set (transactions b). t_category t \<in> set CATEGORIES))"

declare str_nat.simps [simp del]

text \<open>The request gives no category, or one of the enumerated set.\<close>

definition category_valid :: "json_data \<Rightarrow> bool" where
  "category_valid data = (case j_category data of None \<Rightarrow> True | Some c \<Rightarrow> c \<in> set CATEGORIES)"

section \<open>Sample data\<close>

text \<open>The table row of the end-to-end example, the record it yields, and a page that has
  the row both in a table and in its text.\<close>

definition sample_row :: row where
  "sample_row = [Some ''03/01/24'', Some ''AMAZON MARKETPLACE'', Some ''$45.67'']"

definition sample_transaction :: transaction where
  "sample_transaction =
     \<lparr>t_id = None, t_date = ''2024-03-01'', t_description = ''AMAZON MARKETPLACE'',
      t_amount = Finite 45.67, t_category = ''Supplies''\<rparr>"

definition sample_page :: page where
  "sample_page =
     \<lparr>extract_tables = [[sample_row]],
      extract_text = Some ''03/01/24 AMAZON MARKETPLACE $45.67''\<rparr>"

text \<open>Two requests, one with a category outside the enumerated set, and a store that
  holds one transaction.\<close>

definition sample_request :: json_data where
  "sample_request =
     \<lparr>j_date = Some ''2024-03-05'', j_description = Some ''Parking garage'',
      j_amount = Some (Finite (- 12)), j_category = Some ''Travel''\<rparr>"

definition unlisted_request :: json_data where
  "unlisted_request =
     \<lparr>j_date = Some ''2024-03-05'', j_description = Some ''Parking garage'',
      j_amount = Some (Finite (- 12)), j_category = Some ''Parking''\<rparr>"

definition sample_store :: store where
  "sample_store =
     [''2024'' \<mapsto> [''03'' \<mapsto> \<lparr>transactions = [sample_transaction\<lparr>t_id := Some ''a''\<rparr>],
                                 pdf_info = None, processed = False\<rparr>]]"

text \<open>A table row whose first cell is empty and whose second cell is a date.\<close>

definition shifted_row :: row where
  "shifted_row = [Some '''', Some ''03/01/24'', Some ''AMAZON MARKETPLACE'', Some ''$45.67'']"

section \<open>Substrings\<close>

lemma str_in_iff: "str_in k s \<longleftrightarrow> (\<exists>ps ss. s = ps @ k @ ss)"
proof (induction s)
  case Nil
  then show ?case by auto
next
  case (Cons c cs)
  show ?case
  proof
    assume "str_in k (c # cs)"
    then consider "prefix k (c # cs)" | "str_in k cs" by auto
    then show "\<exists>ps ss. c # cs = ps @ k @ ss"
    proof cases
      case 1
      then obtain ss where "c # cs = k @ ss" by (auto simp: prefix_def)
      then have "c # cs = [] @ k @ ss" by simp
      then show ?thesis by blast
    next
      case 2
      with Cons.IH obtain ps ss where "cs = ps @ k @ ss" by blast
      then have "c # cs = (c # ps) @ k @ ss" by simp
      then show ?thesis by blast
    qed
  next
    assume "\<exists>ps ss. c # cs = ps @ k @ ss"
    then obtain ps ss where eq: "c # cs = ps @ k @ ss" by blast
    show "str_in k (c # cs)"
    proof (cases ps)
      case Nil
      with eq have "prefix k (c # cs)" by (simp add: prefix_def)
      then show ?thesis by simp
    next
      case (Cons p ps')
      with eq have "cs = ps' @ k @ ss" by simp
      with Cons.IH have "str_in k cs" by blast
      then show ?thesis by simp
    qed
  qed
qed

lemma str_in_trans:
  assumes "str_in a b" and "str_in b s"
  shows "str_in a s"
proof -
  from assms(1) obtain p1 s1 where "b = p1 @ a @ s1" by (auto simp: str_in_iff)
  moreover from assms(2) obtain p2 s2 where "s = p2 @ b @ s2" by (auto simp: str_in_iff)
  ultimately have "s = (p2 @ p1) @ a @ (s1 @ s2)" by simp
  then show ?thesis unfolding str_in_iff by blast
qed

lemmas string_eval =
  lower_def lower_char_def ascii_uppercase_def ascii_lowercase_def startswith_def

section \<open>Properties of the categorizer\<close>

text \<open>
  C4. Every description that contains "tesla" (case-insensitively, as a substring)
  together with "super" or "charge" is categorized EV/Gas, and every description that
  contains "tesla" but neither of the two is categorized Repairs and Maintenance,
  whatever the amount (also when no amount is given).
\<close>

theorem tesla_category:
  assumes "str_in ''tesla'' (lower d)"
  shows "(str_in ''super'' (lower d) \<or> str_in ''charge'' (lower d)
            \<longrightarrow> categorize_transaction d a = ''EV/Gas'')
       \<and> (\<not> str_in ''super'' (lower d) \<and> \<not> str_in ''charge'' (lower d)
            \<longrightarrow> categorize_transaction d a = ''Repairs and Maintenance'')"
  using assms by (simp add: categorize_transaction_def Let_def)

theorem tesla_category_witness:
  "str_in ''tesla'' (lower ''TESLA Supercharger US'')
   \<and> str_in ''super'' (lower ''TESLA Supercharger US'')
   \<and> categorize_transaction ''TESLA Supercharger US'' (Some (Finite (-12))) = ''EV/Gas''
   \<and> str_in ''tesla'' (lower ''Tesla Service'')
   \<and> \<not> str_in ''super'' (lower ''Tesla Service'')
   \<and> \<not> str_in ''charge'' (lower ''Tesla Service'')
   \<and> categorize_transaction ''Tesla Service'' None = ''Repairs and Maintenance''"
proof -
  have a: "str_in ''tesla'' (lower ''TESLA Supercharger US'')"
    and b: "str_in ''super'' (lower ''TESLA Supercharger US'')"
    by (simp_all add: string_eval)
  have c: "str_in ''tesla'' (lower ''Tesla Service'')"
    and d: "\<not> str_in ''super'' (lower ''Tesla Service'')"
    and e: "\<not> str_in ''charge'' (lower ''Tesla Service'')"
    by (simp_all add: string_eval)
  from tesla_category [OF a, of "Some (Finite (-12))"] b
  have 1: "categorize_transaction ''TESLA Supercharger US'' (Some (Finite (-12))) = ''EV/Gas''"
    by blast
  from tesla_category [OF c, of None] d e
  have 2: "categorize_transaction ''Tesla Service'' None = ''Repairs and Maintenance''"
    by blast
  from a b c d e 1 2 show ?thesis by blast
qed

lemma le_zero_not_gt: "le_zero a \<Longrightarrow> \<not> gt_zero a"
  by (cases a) auto

text \<open>
  C2, as stated, fails: the tests for tesla, home depot, hdphotohub, affirm and amex come
  before the payment-processor test. The description "Square Tesla Service" starts with
  "square " and has a positive amount, and is categorized Repairs and Maintenance.
\<close>

theorem square_prefix_counterexample:
  "\<not> (\<forall>d a. startswith (lower d) ''square '' \<or> startswith (lower d) ''sq *'' \<longrightarrow>
         (gt_zero a \<longrightarrow> categorize_transaction d (Some a) = ''Sales'')
       \<and> (le_zero a \<longrightarrow> categorize_transaction d (Some a) = ''Uncategorized''))"
proof
  assume h: "\<forall>d a. startswith (lower d) ''square '' \<or> startswith (lower d) ''sq *'' \<longrightarrow>
         (gt_zero a \<longrightarrow> categorize_transaction d (Some a) = ''Sales'')
       \<and> (le_zero a \<longrightarrow> categorize_transaction d (Some a) = ''Uncategorized'')"
  have p: "startswith (lower ''Square Tesla Service'') ''square ''"
    by (simp add: string_eval)
  have g: "gt_zero (Finite 5)" by simp
  from h p g have "categorize_transaction ''Square Tesla Service'' (Some (Finite 5)) = ''Sales''"
    by blast
  moreover have "categorize_transaction ''Square Tesla Service'' (Some (Finite 5))
      = ''Repairs and Maintenance''"
    by (simp add: categorize_transaction_def Let_def string_eval)
  ultimately show False by simp
qed

text \<open>
  C2, amended. For every description that (case-insensitively) starts with "square " or
  "sq *" and contains none of tesla, home depot, hdphotohub, affirm, amex: with an
  amount above zero the category is Sales, with an amount of zero or below it is
  Uncategorized (not Processing).
\<close>

theorem square_prefix_category:
  assumes "startswith (lower d) ''square '' \<or> startswith (lower d) ''sq *''"
    and "\<not> before_square (lower d)"
  shows "(gt_zero a \<longrightarrow> categorize_transaction d (Some a) = ''Sales'')
       \<and> (le_zero a \<longrightarrow> categorize_transaction d (Some a) = ''Uncategorized'')"
  using assms le_zero_not_gt [of a]
  by (auto simp add: categorize_transaction_def Let_def before_square_def)

theorem square_prefix_category_witness:
  "startswith (lower ''SQ *COFFEE SHOP'') ''sq *''
   \<and> \<not> before_square (lower ''SQ *COFFEE SHOP'')
   \<and> gt_zero (Finite 25)
   \<and> categorize_transaction ''SQ *COFFEE SHOP'' (Some (Finite 25)) = ''Sales''
   \<and> startswith (lower ''Square Payroll'') ''square ''
   \<and> \<not> before_square (lower ''Square Payroll'')
   \<and> le_zero (Finite (-10))
   \<and> categorize_transaction ''Square Payroll'' (Some (Finite (-10))) = ''Uncategorized''"
proof -
  have a: "startswith (lower ''SQ *COFFEE SHOP'') ''sq *''"
    and b: "\<not> before_square (lower ''SQ *COFFEE SHOP'')"
    by (simp_all add: string_eval before_square_def)
  have c: "startswith (lower ''Square Payroll'') ''square ''"
    and d: "\<not> before_square (lower ''Square Payroll'')"
    by (simp_all add: string_eval before_square_def)
  have g: "gt_zero (Finite 25)" and l: "le_zero (Finite (-10))" by simp_all
  from square_prefix_category [of "''SQ *COFFEE SHOP''" "Finite 25"] a b g
  have 1: "categorize_transaction ''SQ *COFFEE SHOP'' (Some (Finite 25)) = ''Sales''"
    by blast
  from square_prefix_category [of "''Square Payroll''" "Finite (-10)"] c d l
  have 2: "categorize_transaction ''Square Payroll'' (Some (Finite (-10))) = ''Uncategorized''"
    by blast
  from a b c d g l 1 2 show ?thesis by blast
qed

text \<open>
  C10, as stated, fails: Processing and Bank Fees come before Advertisement in the rule
  table. "ADOBE SUBSCRIPTION FEE" contains "adobe", meets no special case, and is
  categorized Bank Fees.
\<close>

theorem adobe_counterexample:
  "\<not> (\<forall>d a. str_in ''adobe'' (lower d) \<and> \<not> special_case (lower d) \<longrightarrow>
         categorize_transaction d a = ''Advertisement'')"
proof
  assume h: "\<forall>d a. str_in ''adobe'' (lower d) \<and> \<not> special_case (lower d) \<longrightarrow>
         categorize_transaction d a = ''Advertisement''"
  have p: "str_in ''adobe'' (lower ''ADOBE SUBSCRIPTION FEE'')"
    by (simp add: string_eval)
  have q: "\<not> special_case (lower ''ADOBE SUBSCRIPTION FEE'')"
    by (simp add: string_eval special_case_def before_square_def)
  from h p q have "categorize_transaction ''ADOBE SUBSCRIPTION FEE'' None = ''Advertisement''"
    by blast
  moreover have "categorize_transaction ''ADOBE SUBSCRIPTION FEE'' None = ''Bank Fees''"
    by (simp add: categorize_transaction_def Let_def string_eval CATEGORIZATION_RULES_def)
  ultimately show False by simp
qed

text \<open>
  C10, amended. For every description that contains "adobe" and meets none of the
  special cases of step 1, the category is Processing when a Processing keyword occurs,
  else Bank Fees when a Bank Fees keyword occurs, else Advertisement (the keyword "ad"
  occurs in "adobe"); for any amount, and never Software.
\<close>

theorem adobe_category:
  assumes "str_in ''adobe'' (lower d)" and "\<not> special_case (lower d)"
  shows "categorize_transaction d a =
           (if any_keyword [''square'', ''stripe'', ''paypal''] (lower d) then ''Processing''
            else if any_keyword [''fee'', ''charge'', ''interest'', ''overdraft''] (lower d)
              then ''Bank Fees''
            else ''Advertisement'')
       \<and> categorize_transaction d a \<noteq> ''Software''"
proof -
  have "str_in ''ad'' ''adobe''" by simp
  from this assms(1) have ad: "str_in ''ad'' (lower d)" by (rule str_in_trans)
  from assms(2) have "categorize_transaction d a =
      (case first_rule CATEGORIZATION_RULES (lower d) of
         Some category \<Rightarrow> category | None \<Rightarrow> ''Uncategorized'')"
    by (simp add: categorize_transaction_def Let_def special_case_def before_square_def)
  also from ad have "\<dots> =
           (if any_keyword [''square'', ''stripe'', ''paypal''] (lower d) then ''Processing''
            else if any_keyword [''fee'', ''charge'', ''interest'', ''overdraft''] (lower d)
              then ''Bank Fees''
            else ''Advertisement'')"
    by (simp add: CATEGORIZATION_RULES_def)
  finally show ?thesis by simp
qed

theorem adobe_category_witness:
  "str_in ''adobe'' (lower ''ADOBE *CREATIVE CLOUD'')
   \<and> \<not> special_case (lower ''ADOBE *CREATIVE CLOUD'')
   \<and> categorize_transaction ''ADOBE *CREATIVE CLOUD'' (Some (Finite (-54.99))) = ''Advertisement''"
proof -
  have a: "str_in ''adobe'' (lower ''ADOBE *CREATIVE CLOUD'')"
    by (simp add: string_eval)
  have b: "\<not> special_case (lower ''ADOBE *CREATIVE CLOUD'')"
    by (simp add: string_eval special_case_def before_square_def)
  have c: "\<not> any_keyword [''square'', ''stripe'', ''paypal''] (lower ''ADOBE *CREATIVE CLOUD'')"
    and d: "\<not> any_keyword [''fee'', ''charge'', ''interest'', ''overdraft'']
              (lower ''ADOBE *CREATIVE CLOUD'')"
    by (simp_all add: string_eval)
  from adobe_category [OF a b, of "Some (Finite (-54.99))"] c d
  have "categorize_transaction ''ADOBE *CREATIVE CLOUD'' (Some (Finite (-54.99))) = ''Advertisement''"
    by simp
  with a b show ?thesis by blast
qed

section \<open>Properties of the amount and date parser\<close>

lemmas num_eval = digits_def isdigit_def digit_val_def int_of_digits_def digit_char_def
  float_space_def float_strip_def take_sign_def parse_exponent_def scale10_def parse_decimal_def
  py_float_def parse_amount_def amount_clean_def endswith_def suffix_to_prefix Let_def

















lemmas date_eval = parse_date_def strptime_def nonzero_digit_def year_group_def year_value_def
  make_date_def days_in_month_def is_leap_def





lemma make_date_valid:
  "make_date y m d = Some (Date y' m' d') \<Longrightarrow>
     1 \<le> m' \<and> m' \<le> 12 \<and> 1 \<le> d' \<and> d' \<le> days_in_month y' m'"
  by (auto simp: make_date_def split: if_splits)

lemma strptime_valid:
  "strptime s f = Some (Date y m d) \<Longrightarrow> 1 \<le> m \<and> m \<le> 12 \<and> 1 \<le> d \<and> d \<le> days_in_month y m"
  unfolding strptime_def
  by (auto split: list.splits if_splits dest: make_date_valid)

text \<open>
  C6. The date parser tries the format with a two-digit year first and then the one
  with a four-digit year, and fails exactly when both fail; a date it returns is a
  calendar date; "3/4/24" and "03/04/2024" both parse to 2024-03-04.
\<close>

theorem parse_date_spec:
  "parse_date s = (case strptime s Year2 of Some d \<Rightarrow> Some d | None \<Rightarrow> strptime s Year4)
   \<and> (parse_date s = None \<longleftrightarrow> strptime s Year2 = None \<and> strptime s Year4 = None)
   \<and> (parse_date s = Some (Date y m d) \<longrightarrow>
        1 \<le> m \<and> m \<le> 12 \<and> 1 \<le> d \<and> d \<le> days_in_month y m)
   \<and> parse_date ''3/4/24'' = Some (Date 2024 3 4)
   \<and> parse_date ''03/04/2024'' = Some (Date 2024 3 4)
   \<and> isoformat (Date 2024 3 4) = ''2024-03-04''"
proof -
  have 1: "parse_date s = (case strptime s Year2 of Some d \<Rightarrow> Some d | None \<Rightarrow> strptime s Year4)"
    by (simp add: parse_date_def)
  have 2: "parse_date s = None \<longleftrightarrow> strptime s Year2 = None \<and> strptime s Year4 = None"
    by (simp add: parse_date_def split: option.splits)
  have 3: "1 \<le> m \<and> m \<le> 12 \<and> 1 \<le> d \<and> d \<le> days_in_month y m"
    if "parse_date s = Some (Date y m d)"
    using that strptime_valid [of s Year2 y m d] strptime_valid [of s Year4 y m d]
    by (simp add: parse_date_def split: option.splits)
  have 4: "parse_date ''3/4/24'' = Some (Date 2024 3 4)"
    by (simp add: num_eval date_eval)
  have 5: "parse_date ''03/04/2024'' = Some (Date 2024 3 4)"
    by (simp add: num_eval date_eval)
  have 6: "isoformat (Date 2024 3 4) = ''2024-03-04''"
    by (simp add: num_eval)
  from 1 2 3 4 5 6 show ?thesis by blast
qed

theorem parse_date_spec_witness:
  "strptime ''3-4-24'' Year2 = None \<and> strptime ''3-4-24'' Year4 = None
   \<and> parse_date ''3-4-24'' = None
   \<and> parse_date ''2/29/24'' = Some (Date 2024 2 29)
   \<and> 29 \<le> days_in_month 2024 2"
proof -
  have a: "strptime ''3-4-24'' Year2 = None" and b: "strptime ''3-4-24'' Year4 = None"
    by (simp_all add: num_eval date_eval)
  have c: "parse_date ''2/29/24'' = Some (Date 2024 2 29)"
    by (simp add: num_eval date_eval)
  from parse_date_spec [of "''3-4-24''" 0 0 0] a b have 1: "parse_date ''3-4-24'' = None"
    by simp
  from parse_date_spec [of "''2/29/24''" 2024 2 29] c have 2: "29 \<le> days_in_month 2024 2"
    by simp
  from a b c 1 2 show ?thesis by blast
qed

section \<open>Properties of the statement extractor\<close>

text \<open>
A loop whose body only appends to its state returns the state followed by what each
  iteration appends.
\<close>

lemma foldl_appends:
  assumes "\<And>acc x. f acc x = acc @ f [] x"
  shows "foldl f acc xs = acc @ concat (map (f []) xs)"
proof (induction xs arbitrary: acc)
  case Nil
  then show ?case by simp
next
  case (Cons x xs)
  have "foldl f acc (x # xs) = foldl f (f acc x) xs" by simp
  also have "\<dots> = f acc x @ concat (map (f []) xs)" by (rule Cons.IH)
  also have "f acc x = acc @ f [] x" by (rule assms)
  finally show ?case by simp
qed

lemma table_row_append: "table_row td row = td @ table_row [] row"
  by (simp add: table_row_def split: prod.splits option.splits)

lemma text_line_append: "text_line td line = td @ text_line [] line"
  by (simp add: text_line_def Let_def split: option.splits)

lemma table_rows_concat: "foldl table_row td t = td @ concat (map (table_row []) t)"
  by (rule foldl_appends) (rule table_row_append)

lemma table_rows_append: "foldl table_row td t = td @ foldl table_row [] t"
  by (simp only: table_rows_concat [of td t] table_rows_concat [of "[]" t] append_Nil)

lemma table_pass_concat:
  "table_pass td ts = td @ concat (map (foldl table_row []) ts)"
  unfolding table_pass_def by (rule foldl_appends) (rule table_rows_append)

lemma table_pass_append: "table_pass td ts = td @ table_pass [] ts"
  by (simp only: table_pass_concat [of td ts] table_pass_concat [of "[]" ts] append_Nil)

lemma text_lines_concat: "foldl text_line td ls = td @ concat (map (text_line []) ls)"
  by (rule foldl_appends) (rule text_line_append)

lemma text_pass_append: "text_pass td tx = td @ text_pass [] tx"
proof (cases tx)
  case None
  then show ?thesis by (simp add: text_pass_def)
next
  case (Some t)
  show ?thesis
  proof (cases "t = []")
    case True
    with Some show ?thesis by (simp add: text_pass_def)
  next
    case False
    with Some show ?thesis
      by (simp only: text_pass_def option.case if_False
          text_lines_concat [of td] text_lines_concat [of "[]"] append_Nil)
  qed
qed

lemma process_page_append:
  "process_page td p = td @ table_transactions p @ text_transactions p"
proof -
  have "process_page td p = table_pass td (extract_tables p) @ text_pass [] (extract_text p)"
    unfolding process_page_def by (rule text_pass_append)
  also have "table_pass td (extract_tables p) = td @ table_pass [] (extract_tables p)"
    by (rule table_pass_append)
  finally show ?thesis by (simp add: table_transactions_def text_transactions_def)
qed

lemma process_pages_readable:
  "process_pages td (map Inr ps) =
     Inr (td @ concat (map (\<lambda>p. table_transactions p @ text_transactions p) ps))"
proof (induction ps arbitrary: td)
  case Nil
  then show ?case by simp
next
  case (Cons p ps)
  have "process_pages td (map Inr (p # ps)) = process_pages (process_page td p) (map Inr ps)"
    by simp
  also have "\<dots> = Inr (process_page td p
      @ concat (map (\<lambda>p. table_transactions p @ text_transactions p) ps))"
    by (rule Cons.IH)
  finally show ?case by (simp add: process_page_append)
qed

lemma table_transactions_rows:
  "table_transactions p = concat (map (\<lambda>t. concat (map (table_row []) t)) (extract_tables p))"
proof -
  have "table_transactions p = concat (map (foldl table_row []) (extract_tables p))"
    unfolding table_transactions_def by (simp only: table_pass_concat append_Nil)
  also have "foldl table_row [] = (\<lambda>t. concat (map (table_row []) t))"
    by (rule ext) (simp only: table_rows_concat append_Nil)
  finally show ?thesis .
qed

text \<open>
  C7. For a document that opens and whose pages the library reads, the extraction
  returns, page after page in the order of the pages, the transactions of the table pass of
  the page followed by the transactions of the text-line pass of the same page. Both passes
  run on every page (the text-line pass also when tables were found), each on the page
  alone, and nothing is removed: the table pass gives the rows of all tables in order, the
  text-line pass the lines of the text in order.
\<close>

theorem extraction_order:
  "extract_transactions_from_pdf (Inr (map Inr ps)) =
     Inr (concat (map (\<lambda>p. table_transactions p @ text_transactions p) ps))
   \<and> table_transactions p = concat (map (\<lambda>t. concat (map (table_row []) t)) (extract_tables p))
   \<and> text_transactions p =
       (case extract_text p of
          None \<Rightarrow> []
        | Some t \<Rightarrow> if t = [] then [] else concat (map (text_line []) (split_on (CHR 0x0A) t)))"
proof -
  have 1: "extract_transactions_from_pdf (Inr (map Inr ps)) =
     Inr (concat (map (\<lambda>p. table_transactions p @ text_transactions p) ps))"
    by (simp add: extract_transactions_from_pdf_def process_pages_readable)
  have 2: "text_transactions p =
       (case extract_text p of
          None \<Rightarrow> []
        | Some t \<Rightarrow> if t = [] then [] else concat (map (text_line []) (split_on (CHR 0x0A) t)))"
    unfolding text_transactions_def text_pass_def
    by (simp only: text_lines_concat append_Nil)
  from 1 table_transactions_rows [of p] 2 show ?thesis by (intro conjI)
qed

lemma process_pages_failure:
  "Inl e \<in> set pages \<Longrightarrow> \<exists>e'. process_pages td pages = Inl e'"
proof (induction td pages rule: process_pages.induct)
  case (1 td)
  then show ?case by simp
next
  case (2 td e' pages)
  then show ?case by simp
next
  case (3 td p pages)
  then show ?case by simp
qed

text \<open>
  C1, as stated, fails: a document that cannot be opened does not make the call fail.
  The handler around the whole body catches the exception and the call returns the empty
  list.
\<close>

theorem open_failure_counterexample:
  "\<not> (\<forall>e. extract_transactions_from_pdf (Inl e) = Inl e)"
  by (simp add: extract_transactions_from_pdf_def)

text \<open>
  C1, amended. The extraction call never fails: for every input the caller gets back a
  list of transactions. When the document cannot be opened the list is empty, and so it
  is when the library raises on a page (the transactions found before are dropped).
\<close>

theorem extraction_never_fails:
  "(\<exists>transactions_data. extract_transactions_from_pdf pdf = Inr transactions_data)
   \<and> extract_transactions_from_pdf (Inl e) = Inr []
   \<and> (Inl e \<in> set pages \<longrightarrow> extract_transactions_from_pdf (Inr pages) = Inr [])"
proof -
  have 1: "\<exists>transactions_data. extract_transactions_from_pdf pdf = Inr transactions_data"
    by (simp add: extract_transactions_from_pdf_def split: sum.splits)
  have 2: "extract_transactions_from_pdf (Inl e) = Inr []"
    by (simp add: extract_transactions_from_pdf_def)
  have 3: "extract_transactions_from_pdf (Inr pages) = Inr []" if "Inl e \<in> set pages"
    using process_pages_failure [OF that, of "[]"]
    by (auto simp: extract_transactions_from_pdf_def)
  from 1 2 3 show ?thesis by blast
qed

lemma clean_row_length: "length (clean_row row) = length row"
  by (simp add: clean_row_def)

text \<open>
  C3, read to the letter, fails: the date is looked for in the first cell, not in the
  first cell that is not empty. The row of the cells "", "03/01/24",
  "AMAZON MARKETPLACE", "$45.67" has at least 3 cells, its first non-empty cell matches
  the date pattern and its last cell contains the numeric pattern, and it is skipped.
\<close>

theorem first_nonempty_cell_counterexample:
  "\<not> (\<forall>row. row_candidate row \<longleftrightarrow>
         3 \<le> length row
         \<and> (\<exists>c. find (\<lambda>c. c \<noteq> []) (clean_row row) = Some c \<and> re_match date_pattern c)
         \<and> re_search amount_pattern (last (clean_row row)))"
proof
  assume h: "\<forall>row. row_candidate row \<longleftrightarrow>
         3 \<le> length row
         \<and> (\<exists>c. find (\<lambda>c. c \<noteq> []) (clean_row row) = Some c \<and> re_match date_pattern c)
         \<and> re_search amount_pattern (last (clean_row row))"
  have l: "3 \<le> length shifted_row" by (simp add: shifted_row_def)
  have f: "find (\<lambda>c. c \<noteq> []) (clean_row shifted_row) = Some ''03/01/24''"
    by code_simp
  have d: "re_match date_pattern ''03/01/24''" by code_simp
  have a: "re_search amount_pattern (last (clean_row shifted_row))" by code_simp
  from h l f d a have "row_candidate shifted_row" by blast
  moreover have "\<not> row_candidate shifted_row" by code_simp
  ultimately show False by simp
qed

text \<open>
  C3, amended. In the table pass a row is a transaction candidate exactly when it has at
  least 3 cells, its first cell is not empty (after trimming) and matches the date
  pattern at its beginning, and its last cell contains the numeric pattern. For a
  candidate the first cell is the date, the last cell the amount and the interior cells
  joined by spaces the description; a row that is no candidate adds nothing, in
  particular a row of 2 cells, whatever it contains.
\<close>

theorem table_row_candidate:
  "(row_candidate row \<longleftrightarrow>
      3 \<le> length row \<and> hd (clean_row row) \<noteq> []
      \<and> re_match date_pattern (hd (clean_row row))
      \<and> re_search amount_pattern (last (clean_row row)))
   \<and> (row_candidate row \<longrightarrow>
        table_row td row =
          (case make_transaction (hd (clean_row row))
                  (join '' '' (butlast (tl (clean_row row)))) (last (clean_row row)) of
             Some transaction \<Rightarrow> td @ [transaction]
           | None \<Rightarrow> td))
   \<and> (\<not> row_candidate row \<longrightarrow> table_row td row = td)
   \<and> (length row = 2 \<longrightarrow> table_row td row = td)"
proof -
  have fields: "row_fields (clean_row row) =
      (hd (clean_row row), join '' '' (butlast (tl (clean_row row))), last (clean_row row))"
    if "3 \<le> length row"
  proof -
    from that have "clean_row row \<noteq> []" using clean_row_length [of row] by auto
    then have "clean_row row ! 0 = hd (clean_row row)" by (simp add: hd_conv_nth)
    with that show ?thesis by (simp add: row_fields_def clean_row_length)
  qed
  have ex: "list_ex (\<lambda>c. c \<noteq> []) (clean_row row)"
    if "3 \<le> length row" and "hd (clean_row row) \<noteq> []"
  proof -
    from that(1) have "clean_row row \<noteq> []" using clean_row_length [of row] by auto
    then have "hd (clean_row row) \<in> set (clean_row row)" by simp
    with that(2) show ?thesis unfolding list_ex_iff by blast
  qed
  have 1: "row_candidate row \<longleftrightarrow>
      3 \<le> length row \<and> hd (clean_row row) \<noteq> []
      \<and> re_match date_pattern (hd (clean_row row))
      \<and> re_search amount_pattern (last (clean_row row))"
  proof (cases "3 \<le> length row")
    case True
    then have ne: "row \<noteq> []" by auto
    then have "clean_row row \<noteq> []" by (simp add: clean_row_def)
    then have nth: "clean_row row ! 0 = hd (clean_row row)" by (simp add: hd_conv_nth)
    show ?thesis
      unfolding row_candidate_def Let_def fields [OF True] nth
      using True ne ex [OF True] by auto
  next
    case False
    then show ?thesis by (simp add: row_candidate_def)
  qed
  have 2: "table_row td row =
          (case make_transaction (hd (clean_row row))
                  (join '' '' (butlast (tl (clean_row row)))) (last (clean_row row)) of
             Some transaction \<Rightarrow> td @ [transaction]
           | None \<Rightarrow> td)" if "row_candidate row"
  proof -
    from that have "3 \<le> length row" by (simp add: row_candidate_def)
    from fields [OF this] that show ?thesis by (simp add: table_row_def)
  qed
  have 3: "table_row td row = td" if "\<not> row_candidate row"
    using that by (simp add: table_row_def)
  have 4: "table_row td row = td" if "length row = 2"
    using that by (simp add: table_row_def row_candidate_def)
  from 1 2 3 4 show ?thesis by blast
qed
lemmas regex_eval = re_match_def re_search_def date_pattern_def amount_pattern_def cat_def
  date_sep_def digit_or_comma_def is_dot_def word_before_def word_after_def isword_def
  isalpha_def isspace_def whitespace_def

lemma sample_category:
  "categorize_transaction ''AMAZON MARKETPLACE'' (Some (Finite 45.67)) = ''Supplies''"
  by (simp add: categorize_transaction_def Let_def string_eval CATEGORIZATION_RULES_def)

lemma sample_make:
  "make_transaction ''03/01/24'' ''AMAZON MARKETPLACE'' ''$45.67'' = Some sample_transaction"
proof -
  have a: "parse_amount ''$45.67'' = Some (Finite 45.67)"
    by (simp add: num_eval string_eval)
  have d: "parse_date ''03/01/24'' = Some (Date 2024 3 1)"
    by (simp add: num_eval date_eval)
  have i: "isoformat (Date 2024 3 1) = ''2024-03-01''"
    by (simp add: num_eval)
  show ?thesis
    by (simp only: make_transaction_def a d i option.case sample_category sample_transaction_def)
qed

lemma sample_clean: "clean_row sample_row = [''03/01/24'', ''AMAZON MARKETPLACE'', ''$45.67'']"
  by (simp add: clean_row_def sample_row_def strip_def isspace_def whitespace_def)

lemma sample_candidate: "row_candidate sample_row"
proof -
  have "re_match date_pattern ''03/01/24''"
    by (simp add: regex_eval isdigit_def digits_def)
  moreover have "re_search amount_pattern ''$45.67''"
    by (simp add: regex_eval isdigit_def digits_def)
  moreover have "length sample_row = 3" by (simp add: sample_row_def)
  ultimately show ?thesis
    by (simp add: row_candidate_def Let_def sample_clean row_fields_def) (simp add: sample_row_def)
qed

lemma sample_table_row: "table_row [] sample_row = [sample_transaction]"
  using sample_candidate
  by (simp add: table_row_def sample_clean row_fields_def sample_make)

lemma sample_table_transactions: "table_transactions sample_page = [sample_transaction]"
  by (simp add: table_transactions_def table_pass_def sample_page_def sample_table_row)

lemma sample_text_line:
  "text_line [] ''03/01/24 AMAZON MARKETPLACE $45.67'' = [sample_transaction]"
proof -
  have s: "strip ''03/01/24 AMAZON MARKETPLACE $45.67'' = ''03/01/24 AMAZON MARKETPLACE $45.67''"
    by (simp add: strip_def isspace_def whitespace_def)
  have d: "re_search date_pattern ''03/01/24 AMAZON MARKETPLACE $45.67''"
    by (simp add: regex_eval isdigit_def digits_def)
  have a: "re_search amount_pattern ''03/01/24 AMAZON MARKETPLACE $45.67''"
    by (simp add: regex_eval isdigit_def digits_def)
  have p: "split ''03/01/24 AMAZON MARKETPLACE $45.67''
      = [''03/01/24'', ''AMAZON'', ''MARKETPLACE'', ''$45.67'']"
    by (simp add: split_def isspace_def whitespace_def)
  show ?thesis
    by (simp add: text_line_def Let_def s d a p sample_make)
qed

lemma sample_text_transactions: "text_transactions sample_page = [sample_transaction]"
  by (simp add: text_transactions_def text_pass_def sample_page_def sample_text_line)

theorem extraction_order_witness:
  "table_transactions sample_page = [sample_transaction]
   \<and> text_transactions sample_page = [sample_transaction]
   \<and> extract_transactions_from_pdf (Inr [Inr sample_page, Inr sample_page]) =
       Inr [sample_transaction, sample_transaction, sample_transaction, sample_transaction]"
proof -
  from conjunct1 [OF extraction_order [of "[sample_page, sample_page]" sample_page]]
  have "extract_transactions_from_pdf (Inr [Inr sample_page, Inr sample_page]) =
       Inr [sample_transaction, sample_transaction, sample_transaction, sample_transaction]"
    by (simp add: sample_table_transactions sample_text_transactions)
  with sample_table_transactions sample_text_transactions show ?thesis by blast
qed

theorem extraction_never_fails_witness:
  "extract_transactions_from_pdf (Inl PdfError) = Inr []
   \<and> Inl PdfError \<in> set [Inr sample_page, Inl PdfError]
   \<and> extract_transactions_from_pdf (Inr [Inr sample_page, Inl PdfError]) = Inr []
   \<and> extract_transactions_from_pdf (Inr []) = Inr []"
proof -
  have m: "Inl PdfError \<in> set [Inr sample_page, Inl PdfError]" by simp
  have e: "extract_transactions_from_pdf (Inr []) = Inr []"
    by (simp add: extract_transactions_from_pdf_def)
  from extraction_never_fails [of "Inr []" PdfError "[Inr sample_page, Inl PdfError]"] m
  have "extract_transactions_from_pdf (Inl PdfError) = Inr []"
    and "extract_transactions_from_pdf (Inr [Inr sample_page, Inl PdfError]) = Inr []"
    by blast+
  with m e show ?thesis by blast
qed

theorem table_row_candidate_witness:
  "row_candidate sample_row
   \<and> 3 \<le> length sample_row
   \<and> hd (clean_row sample_row) = ''03/01/24''
   \<and> join '' '' (butlast (tl (clean_row sample_row))) = ''AMAZON MARKETPLACE''
   \<and> last (clean_row sample_row) = ''$45.67''
   \<and> table_row [] sample_row = [sample_transaction]
   \<and> length [Some ''03/01/24'', Some ''$45.67''] = 2
   \<and> table_row [] [Some ''03/01/24'', Some ''$45.67''] = []
   \<and> \<not> row_candidate [Some '''', Some ''03/01/24'', Some ''AMAZON'', Some ''$45.67'']
   \<and> table_row [] [Some '''', Some ''03/01/24'', Some ''AMAZON'', Some ''$45.67''] = []"
proof -
  have l: "3 \<le> length sample_row" by (simp add: sample_row_def)
  have f: "hd (clean_row sample_row) = ''03/01/24''"
    "join '' '' (butlast (tl (clean_row sample_row))) = ''AMAZON MARKETPLACE''"
    "last (clean_row sample_row) = ''$45.67''"
    by (simp_all add: sample_clean)
  from table_row_candidate [of sample_row "[]"] sample_candidate f sample_make
  have 1: "table_row [] sample_row = [sample_transaction]" by simp
  have l2: "length [Some ''03/01/24'', Some ''$45.67''] = 2" by simp
  from table_row_candidate [of "[Some ''03/01/24'', Some ''$45.67'']" "[]"] l2
  have 2: "table_row [] [Some ''03/01/24'', Some ''$45.67''] = []" by blast
  have h: "hd (clean_row [Some '''', Some ''03/01/24'', Some ''AMAZON'', Some ''$45.67'']) = []"
    by (simp add: clean_row_def strip_def)
  from table_row_candidate [of "[Some '''', Some ''03/01/24'', Some ''AMAZON'', Some ''$45.67'']" "[]"] h
  have 3: "\<not> row_candidate [Some '''', Some ''03/01/24'', Some ''AMAZON'', Some ''$45.67'']"
    and 4: "table_row [] [Some '''', Some ''03/01/24'', Some ''AMAZON'', Some ''$45.67''] = []"
    by blast+
  from sample_candidate l f 1 l2 2 3 4 show ?thesis by blast
qed

section \<open>Properties of the vendor normalizer\<close>






lemma take3_join:
  "(if 3 \<le> length ws then join '' '' (take 3 ws) else join '' '' ws) = join '' '' (take 3 ws)"
  by simp


section \<open>The category invariant\<close>

text \<open>
Every category the categorizer can return is a member of the enumerated set.
\<close>

lemma first_rule_category: "first_rule rs d = Some c \<Longrightarrow> c \<in> fst ` set rs"
  by (induction rs d rule: first_rule.induct) (auto split: if_splits)

lemma rule_categories: "\<forall>r \<in> set CATEGORIZATION_RULES. fst r \<in> set CATEGORIES"
  by code_simp

lemma literal_categories:
  "''EV/Gas'' \<in> set CATEGORIES" "''Repairs and Maintenance'' \<in> set CATEGORIES"
  "''Software'' \<in> set CATEGORIES" "''Equipment'' \<in> set CATEGORIES"
  "''Bank Fees'' \<in> set CATEGORIES" "''Sales'' \<in> set CATEGORIES"
  "''Uncategorized'' \<in> set CATEGORIES"
  by code_simp+

lemma categorize_in_categories: "categorize_transaction d a \<in> set CATEGORIES"
proof -
  have tab: "(case first_rule CATEGORIZATION_RULES s of Some category \<Rightarrow> category
        | None \<Rightarrow> ''Uncategorized'') \<in> set CATEGORIES" for s
  proof (cases "first_rule CATEGORIZATION_RULES s")
    case None
    then show ?thesis by (simp add: literal_categories)
  next
    case (Some c)
    from first_rule_category [OF this] rule_categories have "c \<in> set CATEGORIES" by auto
    with Some show ?thesis by simp
  qed
  show ?thesis
    unfolding categorize_transaction_def Let_def
    using tab [of "lower d"]
    by (simp add: literal_categories split: option.splits)
qed

lemma make_transaction_category:
  "make_transaction ds d as = Some t \<Longrightarrow> t_category t \<in> set CATEGORIES"
  by (auto simp: make_transaction_def categorize_in_categories split: option.splits)

lemma table_row_cases:
  "table_row [] row = [] \<or> (\<exists>ds d as t. make_transaction ds d as = Some t \<and> table_row [] row = [t])"
proof (cases "row_candidate row")
  case False
  then show ?thesis by (simp add: table_row_def)
next
  case True
  obtain ds d as where f: "row_fields (clean_row row) = (ds, d, as)"
    by (cases "row_fields (clean_row row)") auto
  show ?thesis
  proof (cases "make_transaction ds d as")
    case None
    with True f show ?thesis by (simp add: table_row_def)
  next
    case (Some t)
    with True f have "table_row [] row = [t]" by (simp add: table_row_def)
    with Some show ?thesis by blast
  qed
qed

lemma table_row_category: "\<forall>t \<in> set (table_row [] row). t_category t \<in> set CATEGORIES"
  using table_row_cases [of row] make_transaction_category by fastforce

lemma text_line_cases:
  "text_line [] line = [] \<or> (\<exists>ds d as t. make_transaction ds d as = Some t \<and> text_line [] line = [t])"
proof -
  let ?parts = "split (strip line)"
  show ?thesis
  proof (cases "make_transaction (?parts ! 0) (join '' '' (butlast (tl ?parts))) (last ?parts)")
    case None
    then show ?thesis by (simp add: text_line_def Let_def)
  next
    case (Some t)
    then have "text_line [] line = [] \<or> text_line [] line = [t]"
      by (simp add: text_line_def Let_def)
    with Some show ?thesis by blast
  qed
qed

lemma text_line_category: "\<forall>t \<in> set (text_line [] line). t_category t \<in> set CATEGORIES"
  using text_line_cases [of line] make_transaction_category by fastforce

lemma table_transactions_category:
  "\<forall>t \<in> set (table_transactions p). t_category t \<in> set CATEGORIES"
  unfolding table_transactions_rows using table_row_category by auto

lemma text_transactions_category:
  "\<forall>t \<in> set (text_transactions p). t_category t \<in> set CATEGORIES"
proof (cases "extract_text p")
  case None
  then show ?thesis by (simp add: text_transactions_def text_pass_def)
next
  case (Some t)
  have "\<forall>t \<in> set (foldl text_line [] ls). t_category t \<in> set CATEGORIES" for ls
    using text_lines_concat [of "[]" ls] text_line_category by auto
  with Some show ?thesis by (simp add: text_transactions_def text_pass_def)
qed

lemma process_pages_category:
  "process_pages td pages = Inr ts \<Longrightarrow> \<forall>t \<in> set td. t_category t \<in> set CATEGORIES
     \<Longrightarrow> \<forall>t \<in> set ts. t_category t \<in> set CATEGORIES"
proof (induction td pages rule: process_pages.induct)
  case (1 td)
  then show ?case by simp
next
  case (2 td e pages)
  then show ?case by simp
next
  case (3 td p pages)
  have "\<forall>t \<in> set (process_page td p). t_category t \<in> set CATEGORIES"
    unfolding process_page_append
    using "3.prems"(2) table_transactions_category [of p] text_transactions_category [of p]
    by auto
  with "3.IH" "3.prems"(1) show ?case by simp
qed

lemma extract_category:
  "extract_transactions_from_pdf pdf = Inr ts \<Longrightarrow> \<forall>t \<in> set ts. t_category t \<in> set CATEGORIES"
  unfolding extract_transactions_from_pdf_def
  using process_pages_category [of "[]"]
  by (auto split: sum.splits)

lemma update_fields_category:
  "t_category (update_fields data t) = (case j_category data of Some c \<Rightarrow> c | None \<Rightarrow> t_category t)"
  by (simp add: update_fields_def Let_def split: option.splits)

lemma update_loop_category:
  assumes "update_loop tid data ts = Some (ts', u)"
  shows "t_category u = (case j_category data of Some c \<Rightarrow> c | None \<Rightarrow> t_category u)"
    and "category_valid data \<Longrightarrow> \<forall>t \<in> set ts. t_category t \<in> set CATEGORIES
           \<Longrightarrow> \<forall>t \<in> set ts'. t_category t \<in> set CATEGORIES"
  using assms
proof (induction ts arbitrary: ts')
  case Nil
  {
    case 1
    then show ?case by simp
  next
    case 2
    then show ?case by simp
  }
next
  case (Cons t ts)
  {
    case 1
    then show ?case
      using Cons.IH(1) by (auto simp: update_fields_category split: if_splits option.splits)
  next
    case 2
    then show ?case
      using Cons.IH(2)
      by (auto simp: update_fields_category category_valid_def split: if_splits option.splits)
  }
qed

lemma categories_ok_put:
  assumes ok: "categories_ok fd"
    and months: "months = (case fd year of None \<Rightarrow> Map.empty | Some ms \<Rightarrow> ms)"
    and b': "\<forall>t \<in> set (transactions b'). t_category t \<in> set CATEGORIES"
  shows "categories_ok (fd(year \<mapsto> months(month \<mapsto> b')))"
  unfolding categories_ok_def
proof (intro allI impI)
  fix y ms m b
  assume y: "(fd(year \<mapsto> months(month \<mapsto> b'))) y = Some ms" and m: "ms m = Some b"
  show "\<forall>t \<in> set (transactions b). t_category t \<in> set CATEGORIES"
  proof (cases "y = year")
    case False
    with y have "fd y = Some ms" by simp
    with ok m show ?thesis unfolding categories_ok_def by blast
  next
    case True
    with y have ms: "ms = months(month \<mapsto> b')" by simp
    show ?thesis
    proof (cases "m = month")
      case True
      with ms m have "b = b'" by simp
      with b' show ?thesis by simp
    next
      case False
      with ms m have mm: "months m = Some b" by simp
      with months have "fd year = Some months" by (cases "fd year") auto
      with ok mm show ?thesis unfolding categories_ok_def by blast
    qed
  qed
qed

lemma categories_ok_bucket:
  "categories_ok fd \<Longrightarrow> fd year = Some months \<Longrightarrow> months month = Some b
     \<Longrightarrow> \<forall>t \<in> set (transactions b). t_category t \<in> set CATEGORIES"
  unfolding categories_ok_def by blast

lemma add_transaction_ok:
  assumes ok: "categories_ok fd" and valid: "category_valid data"
  shows "categories_ok (fst (add_transaction year month data fd))"
proof (cases "\<exists>date description amount.
    j_date data = Some date \<and> j_description data = Some description \<and> j_amount data = Some amount")
  case False
  then have "fst (add_transaction year month data fd) = fd"
    by (auto simp: add_transaction_def split: option.splits)
  with ok show ?thesis by simp
next
  case True
  then obtain date description amount where d: "j_date data = Some date"
    "j_description data = Some description" "j_amount data = Some amount" by blast
  define months where "months = (case fd year of None \<Rightarrow> Map.empty | Some ms \<Rightarrow> ms)"
  define b where "b = (case months month of
      None \<Rightarrow> \<lparr>transactions = [], pdf_info = None, processed = False\<rparr> | Some b \<Rightarrow> b)"
  define new where "new =
    \<lparr>t_id = Some (year @ ''_'' @ month @ ''_manual_'' @ str_nat (length (transactions b))),
     t_date = date, t_description = description, t_amount = amount,
     t_category = (case j_category data of Some c \<Rightarrow> c | None \<Rightarrow> ''Uncategorized'')\<rparr>"
  have eq: "fst (add_transaction year month data fd) =
      fd(year \<mapsto> months(month \<mapsto> b\<lparr>transactions := transactions b @ [new]\<rparr>))"
    using d by (simp add: add_transaction_def Let_def months_def b_def new_def)
  have old: "\<forall>t \<in> set (transactions b). t_category t \<in> set CATEGORIES"
  proof (cases "months month")
    case None
    then show ?thesis by (simp add: b_def)
  next
    case (Some b0)
    then have b0: "b = b0" by (simp add: b_def)
    from Some have "fd year = Some months" by (cases "fd year") (auto simp: months_def)
    from categories_ok_bucket [OF ok this Some] b0 show ?thesis by simp
  qed
  have "t_category new \<in> set CATEGORIES"
    using valid by (auto simp: new_def category_valid_def literal_categories split: option.splits)
  with old have "\<forall>t \<in> set (transactions (b\<lparr>transactions := transactions b @ [new]\<rparr>)).
      t_category t \<in> set CATEGORIES" by auto
  from categories_ok_put [OF ok months_def this] eq show ?thesis by simp
qed

lemma update_transaction_ok:
  assumes ok: "categories_ok fd" and valid: "category_valid data"
  shows "categories_ok (fst (update_transaction year month tid data fd))"
proof (cases "fd year")
  case None
  with ok show ?thesis by (simp add: update_transaction_def)
next
  case (Some months)
  show ?thesis
  proof (cases "months month")
    case None
    with Some ok show ?thesis by (simp add: update_transaction_def)
  next
    case b: (Some b)
    show ?thesis
    proof (cases "update_loop tid data (transactions b)")
      case None
      with Some b ok show ?thesis by (simp add: update_transaction_def)
    next
      case upd: (Some r)
      obtain ts' u where r: "r = (ts', u)" by (cases r)
      from categories_ok_bucket [OF ok Some b]
      have "\<forall>t \<in> set (transactions b). t_category t \<in> set CATEGORIES" .
      with update_loop_category(2) [OF upd [unfolded r] valid]
      have "\<forall>t \<in> set (transactions (b\<lparr>transactions := ts'\<rparr>)). t_category t \<in> set CATEGORIES"
        by simp
      moreover from Some have "months = (case fd year of None \<Rightarrow> Map.empty | Some ms \<Rightarrow> ms)"
        by simp
      ultimately have "categories_ok (fd(year \<mapsto> months(month \<mapsto> b\<lparr>transactions := ts'\<rparr>)))"
        using ok by (intro categories_ok_put)
      with Some b upd r show ?thesis by (simp add: update_transaction_def)
    qed
  qed
qed

lemma add_transaction_stores:
  assumes "add_transaction year month data fd = (fd', Success msg t)"
  shows "t_category t = (case j_category data of Some c \<Rightarrow> c | None \<Rightarrow> ''Uncategorized'')"
  using assms
  by (auto simp: add_transaction_def Let_def split: option.splits)

lemma update_transaction_stores:
  assumes "update_transaction year month tid data fd = (fd', Success msg t)"
    and "j_category data = Some c"
  shows "t_category t = c"
proof -
  from assms(1) obtain ts ts' where "update_loop tid data ts = Some (ts', t)"
    by (auto simp: update_transaction_def split: option.splits)
  from update_loop_category(1) [OF this] assms(2) show ?thesis by simp
qed

lemma parking_unlisted: "''Parking'' \<notin> set CATEGORIES"
  by code_simp

lemma sample_store_ok: "categories_ok sample_store"
proof -
  have "t_category (sample_transaction\<lparr>t_id := Some ''a''\<rparr>) \<in> set CATEGORIES"
    by (simp add: sample_transaction_def CATEGORIES_def)
  then show ?thesis
    by (auto simp: categories_ok_def sample_store_def split: if_splits)
qed

lemma empty_store_ok: "categories_ok Map.empty"
  by (simp add: categories_ok_def)

lemma unlisted_add:
  "add_transaction ''2024'' ''03'' unlisted_request Map.empty =
     ([''2024'' \<mapsto> [''03'' \<mapsto>
         \<lparr>transactions =
            [\<lparr>t_id = Some ''2024_03_manual_0'', t_date = ''2024-03-05'',
              t_description = ''Parking garage'', t_amount = Finite (- 12),
              t_category = ''Parking''\<rparr>],
          pdf_info = None, processed = False\<rparr>]],
      Success ''Transaction added successfully''
        \<lparr>t_id = Some ''2024_03_manual_0'', t_date = ''2024-03-05'',
         t_description = ''Parking garage'', t_amount = Finite (- 12),
         t_category = ''Parking''\<rparr>)"
  by (simp add: add_transaction_def unlisted_request_def Let_def str_nat.simps [of 0]
      digit_char_def digits_def)

lemma unlisted_update:
  "update_transaction ''2024'' ''03'' ''a'' unlisted_request sample_store =
     ([''2024'' \<mapsto> [''03'' \<mapsto>
         \<lparr>transactions =
            [\<lparr>t_id = Some ''a'', t_date = ''2024-03-05'',
              t_description = ''Parking garage'', t_amount = Finite (- 12),
              t_category = ''Parking''\<rparr>],
          pdf_info = None, processed = False\<rparr>]],
      Success ''Transaction updated successfully''
        \<lparr>t_id = Some ''a'', t_date = ''2024-03-05'',
         t_description = ''Parking garage'', t_amount = Finite (- 12),
         t_category = ''Parking''\<rparr>)"
  by (simp add: update_transaction_def unlisted_request_def sample_store_def
      sample_transaction_def update_fields_def Let_def)

lemma bucket_category:
  assumes "categories_ok [year \<mapsto> [month \<mapsto> b]]" and "t \<in> set (transactions b)"
  shows "t_category t \<in> set CATEGORIES"
  using categories_ok_bucket [OF assms(1), of year "[month \<mapsto> b]" month b] assms(2) by simp

text \<open>
  C9, as stated, fails: the manual add and the update store the category of the request
  as it is. Adding a transaction with the category "Parking", or updating one to it,
  leaves a transaction whose category is not in the enumerated set.
\<close>

theorem category_invariant_counterexample:
  "\<not> (\<forall>year month data fd.
         categories_ok fd \<longrightarrow> categories_ok (fst (add_transaction year month data fd)))
   \<and> \<not> (\<forall>year month tid data fd.
         categories_ok fd \<longrightarrow> categories_ok (fst (update_transaction year month tid data fd)))"
proof
  show "\<not> (\<forall>year month data fd.
         categories_ok fd \<longrightarrow> categories_ok (fst (add_transaction year month data fd)))"
  proof
    assume "\<forall>year month data fd.
         categories_ok fd \<longrightarrow> categories_ok (fst (add_transaction year month data fd))"
    with empty_store_ok
    have "categories_ok (fst (add_transaction ''2024'' ''03'' unlisted_request Map.empty))"
      by blast
    then have "t_category \<lparr>t_id = Some ''2024_03_manual_0'', t_date = ''2024-03-05'',
              t_description = ''Parking garage'', t_amount = Finite (- 12),
              t_category = ''Parking''\<rparr> \<in> set CATEGORIES"
      unfolding unlisted_add fst_conv by (rule bucket_category) simp
    with parking_unlisted show False by simp
  qed
  show "\<not> (\<forall>year month tid data fd.
         categories_ok fd \<longrightarrow> categories_ok (fst (update_transaction year month tid data fd)))"
  proof
    assume "\<forall>year month tid data fd.
         categories_ok fd \<longrightarrow> categories_ok (fst (update_transaction year month tid data fd))"
    with sample_store_ok
    have "categories_ok (fst (update_transaction ''2024'' ''03'' ''a'' unlisted_request sample_store))"
      by blast
    then have "t_category \<lparr>t_id = Some ''a'', t_date = ''2024-03-05'',
              t_description = ''Parking garage'', t_amount = Finite (- 12),
              t_category = ''Parking''\<rparr> \<in> set CATEGORIES"
      unfolding unlisted_update fst_conv by (rule bucket_category) simp
    with parking_unlisted show False by simp
  qed
qed

text \<open>
  C9, amended. The categorizer returns a member of the enumerated category set, so every
  transaction the extraction creates has a category of the set. The manual add gives the
  category Uncategorized when the request names none, and otherwise, like the update,
  stores the category of the request unchecked: the two operations keep every stored
  category in the set when the request gives no category or one of the set.
\<close>

theorem category_invariant:
  "categorize_transaction description amount \<in> set CATEGORIES
   \<and> (extract_transactions_from_pdf pdf = Inr ts \<longrightarrow>
        (\<forall>t \<in> set ts. t_category t \<in> set CATEGORIES))
   \<and> (categories_ok fd \<and> category_valid data \<longrightarrow>
        categories_ok (fst (add_transaction year month data fd))
      \<and> categories_ok (fst (update_transaction year month tid data fd)))
   \<and> (add_transaction year month data fd = (fd', Success msg t) \<longrightarrow>
        t_category t = (case j_category data of Some c \<Rightarrow> c | None \<Rightarrow> ''Uncategorized''))
   \<and> (update_transaction year month tid data fd = (fd', Success msg t)
        \<and> j_category data = Some c \<longrightarrow> t_category t = c)"
  using categorize_in_categories [of description amount] extract_category [of pdf ts]
    add_transaction_ok [of fd data year month] update_transaction_ok [of fd data year month tid]
    add_transaction_stores [of year month data fd fd' msg t]
    update_transaction_stores [of year month tid data fd fd' msg t c]
  by blast

theorem category_invariant_witness:
  "categories_ok sample_store \<and> category_valid sample_request
   \<and> categories_ok (fst (add_transaction ''2024'' ''03'' sample_request sample_store))
   \<and> categories_ok (fst (update_transaction ''2024'' ''03'' ''a'' sample_request sample_store))
   \<and> extract_transactions_from_pdf (Inr [Inr sample_page]) =
       Inr [sample_transaction, sample_transaction]
   \<and> t_category sample_transaction \<in> set CATEGORIES
   \<and> categorize_transaction ''AMAZON MARKETPLACE'' (Some (Finite 45.67)) \<in> set CATEGORIES"
proof -
  have v: "category_valid sample_request"
    by (simp add: category_valid_def sample_request_def CATEGORIES_def)
  have e: "extract_transactions_from_pdf (Inr [Inr sample_page]) =
       Inr [sample_transaction, sample_transaction]"
    using process_pages_readable [of "[]" "[sample_page]"]
    by (simp add: extract_transactions_from_pdf_def sample_table_transactions
        sample_text_transactions)
  note th = category_invariant [of "''AMAZON MARKETPLACE''" "Some (Finite 45.67)"
      "Inr [Inr sample_page]" "[sample_transaction, sample_transaction]" sample_store
      sample_request "''2024''" "''03''" "''a''"]
  from th sample_store_ok v
  have 1: "categories_ok (fst (add_transaction ''2024'' ''03'' sample_request sample_store))"
    and 2: "categories_ok (fst (update_transaction ''2024'' ''03'' ''a'' sample_request sample_store))"
    by blast+
  from th e have 3: "t_category sample_transaction \<in> set CATEGORIES" by simp
  from th have 4: "categorize_transaction ''AMAZON MARKETPLACE'' (Some (Finite 45.67))
      \<in> set CATEGORIES" by blast
  from sample_store_ok v 1 2 e 3 4 show ?thesis by blast
qed

end
